theory Spec2Isabelle
  imports Main "HOL-Library.Sublist"
begin

section \<open>The citation record\<close>

text \<open>
  \<^verbatim>\<open>pubmed_bib.py\<close> receives a CSL-JSON object from the PubMed citation service and
  renders it as one BibTeX entry. The object is modelled with the types of the CSL
  schema: a key that may be absent is an \<open>option\<close>, a name object has the optional keys
  \<open>family\<close> and \<open>given\<close>, a date object has the optional key \<open>date-parts\<close>, a list of
  lists of integers. Text is a \<open>string\<close>; the case mapping of \<open>str.title\<close> is the ASCII one.
  Every exception the interpreter raises on such an object is a value of \<open>error\<close>.
\<close>

datatype error = KeyError | IndexError | TypeError | AttributeError | UnboundLocalError

record csl_name =
  family :: "string option"
  given :: "string option"

record csl_date =
  date_parts :: "int list list option"

record reference =
  status :: "string option"
  title :: "string option"
  author :: "csl_name list option"
  container_title :: "string option"
  container_title_short :: "string option"
  volume :: "string option"
  page :: "string option"
  DOI :: "string option"
  issued :: "csl_date option"
  epub_date :: "csl_date option"

section \<open>Library functions the formatter calls\<close>

subsection \<open>\<^verbatim>\<open>re.sub\<close> with a pattern \<^verbatim>\<open>OPEN(.+)CLOSE\<close>\<close>

text \<open>
  \<open>match_tag op cl s\<close> is the match of the pattern at the start of \<open>s\<close>: after the literal
  \<open>op\<close>, the group \<^verbatim>\<open>(.+)\<close> first takes every character up to the next line break
  (\<^verbatim>\<open>.\<close> matches anything but a line break) and then gives characters back one at a
  time, keeping at least one, until the literal \<open>cl\<close> follows. The result is the capture
  and the text after the match.
\<close>

definition match_tag :: "string \<Rightarrow> string \<Rightarrow> string \<Rightarrow> (string \<times> string) option" where
  "match_tag op cl s =
     (if prefix op s then
        let rest = drop (length op) s;
            m = length (takeWhile (\<lambda>c. c \<noteq> CHR ''\<newline>'') rest)
        in case find (\<lambda>k. prefix cl (drop k rest)) (rev [1..<Suc m]) of
             None \<Rightarrow> None
           | Some k \<Rightarrow> Some (take k rest, drop (k + length cl) rest)
      else None)"

text \<open>
  \<open>re_sub_tag op cl l r s\<close> is \<^verbatim>\<open>re.sub("OPEN(.+)CLOSE", "L\\1R", s)\<close>: the text is scanned
  from the left, every match is replaced by \<open>l\<close>, the capture and \<open>r\<close>, and the scan goes
  on behind the match.
\<close>

function re_sub_tag :: "string \<Rightarrow> string \<Rightarrow> string \<Rightarrow> string \<Rightarrow> string \<Rightarrow> string" where
  "re_sub_tag op cl l r [] = []"
| "re_sub_tag op cl l r (c # cs) =
     (case match_tag op cl (c # cs) of
        Some (x, rest) \<Rightarrow> l @ x @ r @ re_sub_tag op cl l r rest
      | None \<Rightarrow> c # re_sub_tag op cl l r cs)"
  by pat_completeness auto
termination
proof (relation "measure (\<lambda>(op, cl, l, r, s). length s)")
  fix op cl l r :: string and c :: char and cs :: string and m x rest
  assume m: "match_tag op cl (c # cs) = Some m" and "(x, rest) = m"
  have mem: "find P ks = Some k \<Longrightarrow> k \<in> set ks" for P and ks :: "nat list" and k
    by (induction ks) (auto split: if_splits)
  from m \<open>(x, rest) = m\<close> obtain k where
    k: "find (\<lambda>k. prefix cl (drop k (drop (length op) (c # cs))))
          (rev [1..<Suc (length (takeWhile (\<lambda>c. c \<noteq> CHR ''\<newline>'')
             (drop (length op) (c # cs))))]) = Some k"
    and rest: "rest = drop (k + length cl) (drop (length op) (c # cs))"
    by (auto simp: match_tag_def Let_def split: if_splits option.splits)
  from mem[OF k] have "1 \<le> k" by auto
  with rest have "length rest < length (c # cs)" by auto
  then show "((op, cl, l, r, rest), (op, cl, l, r, c # cs))
               \<in> measure (\<lambda>(op, cl, l, r, s). length s)" by simp
qed simp_all

subsection \<open>\<^verbatim>\<open>re.sub("([A-Z]+)", "{\\1}", s)\<close>\<close>

definition is_upper :: "char \<Rightarrow> bool" where
  "is_upper c = (c \<in> set ''ABCDEFGHIJKLMNOPQRSTUVWXYZ'')"

definition is_lower :: "char \<Rightarrow> bool" where
  "is_lower c = (c \<in> set ''abcdefghijklmnopqrstuvwxyz'')"

function re_sub_caps :: "string \<Rightarrow> string" where
  "re_sub_caps [] = []"
| "re_sub_caps (c # cs) =
     (if is_upper c
      then ''{'' @ takeWhile is_upper (c # cs) @ ''}'' @ re_sub_caps (dropWhile is_upper (c # cs))
      else c # re_sub_caps cs)"
  by pat_completeness auto
termination
  by (relation "measure length") (auto simp: length_dropWhile_le less_Suc_eq_le)

subsection \<open>\<^verbatim>\<open>str.title\<close>, \<^verbatim>\<open>str\<close> of an integer, \<^verbatim>\<open>str.join\<close>, \<^verbatim>\<open>str.rstrip\<close>\<close>

definition to_upper :: "char \<Rightarrow> char" where
  "to_upper c = (if is_lower c then char_of (of_char c - (32::nat)) else c)"

definition to_lower :: "char \<Rightarrow> char" where
  "to_lower c = (if is_upper c then char_of (of_char c + (32::nat)) else c)"

text \<open>
  \<open>str.title\<close> walks the string once: a character behind a cased character is put in
  lower case, any other character in title case.
\<close>

fun title_from :: "bool \<Rightarrow> string \<Rightarrow> string" where
  "title_from previous_is_cased [] = []"
| "title_from previous_is_cased (c # cs) =
     (if previous_is_cased then to_lower c else to_upper c)
       # title_from (is_upper c \<or> is_lower c) cs"

definition str_title :: "string \<Rightarrow> string" where
  "str_title s = title_from False s"

fun digits :: "nat \<Rightarrow> string" where
  "digits n =
     (if n < 10 then [''0123456789'' ! n]
      else digits (n div 10) @ [''0123456789'' ! (n mod 10)])"

declare digits.simps [simp del]

definition str :: "int \<Rightarrow> string" where
  "str i = (if i < 0 then CHR ''-'' # digits (nat (- i)) else digits (nat i))"

fun join :: "string \<Rightarrow> string list \<Rightarrow> string" where
  "join sep [] = []"
| "join sep [x] = x"
| "join sep (x # y # ys) = x @ sep @ join sep (y # ys)"

definition is_space :: "char \<Rightarrow> bool" where
  "is_space c = (c \<in> set [CHR '' '', CHR 0x09, CHR ''\<newline>'', CHR 0x0B, CHR 0x0C, CHR 0x0D,
                           CHR 0x1C, CHR 0x1D, CHR 0x1E, CHR 0x1F])"

definition rstrip :: "string \<Rightarrow> string" where
  "rstrip s = rev (dropWhile is_space (rev s))"

section \<open>\<^verbatim>\<open>format_reference\<close>\<close>

text \<open>
  Lines 23 and 30: an absent \<open>title\<close> is the empty string, and so is an absent \<open>author\<close>;
  the loop of line 32 and the index of line 53 treat the empty string as they treat the
  empty list.
\<close>

definition title_or_empty :: "reference \<Rightarrow> string" where
  "title_or_empty reference = (case title reference of Some t \<Rightarrow> t | None \<Rightarrow> [])"

definition authors_or_empty :: "reference \<Rightarrow> csl_name list" where
  "authors_or_empty reference = (case author reference of Some as \<Rightarrow> as | None \<Rightarrow> [])"

text \<open>Lines 25 to 28: the three substitutions on the title, in this order.\<close>

definition sub_to_latex :: "string \<Rightarrow> string" where
  "sub_to_latex t = re_sub_tag ''<sub>'' ''</sub>'' ''$_{'' ''}$'' t"

definition sup_to_latex :: "string \<Rightarrow> string" where
  "sup_to_latex t = re_sub_tag ''<sup>'' ''</sup>'' ''$^{'' ''}$'' t"

definition sanitize_title :: "string \<Rightarrow> string" where
  "sanitize_title t = re_sub_caps (sup_to_latex (sub_to_latex t))"

text \<open>Lines 31 to 40: the loop over the authors, appending to \<open>authorList\<close>.\<close>

fun author_loop :: "csl_name list \<Rightarrow> string list \<Rightarrow> string list" where
  "author_loop [] authorList = authorList"
| "author_loop (a # authors) authorList =
     (case (family a, given a) of
        (Some f, Some g) \<Rightarrow> author_loop authors (authorList @ [f @ '', '' @ g])
      | (Some f, None) \<Rightarrow> author_loop authors (authorList @ [f])
      | (None, Some g) \<Rightarrow> author_loop authors (authorList @ [g])
      | (None, None) \<Rightarrow> author_loop authors authorList)"

text \<open>
  \<^verbatim>\<open>reference.get(key) or ''\<close> and \<^verbatim>\<open>reference.get(key, '')\<close>: on a key that holds text
  both are the text, on an absent key both are the empty string.
\<close>

definition get_or_empty :: "string option \<Rightarrow> string" where
  "get_or_empty v = (case v of None \<Rightarrow> [] | Some s \<Rightarrow> (if s = [] then [] else s))"

definition get_default_empty :: "string option \<Rightarrow> string" where
  "get_default_empty v = (case v of None \<Rightarrow> [] | Some s \<Rightarrow> s)"

text \<open>
  Lines 48 to 51. \<^verbatim>\<open>d['date-parts'][0][0]\<close> raises on a missing key and on an empty list.
  With neither \<open>issued\<close> nor \<open>epub-date\<close> no branch runs and \<open>year\<close> stays unbound: the
  result \<open>Inr None\<close>.
\<close>

definition first_date_part :: "csl_date \<Rightarrow> error + int" where
  "first_date_part d =
     (case date_parts d of
        None \<Rightarrow> Inl KeyError
      | Some parts \<Rightarrow>
          (case parts of
             [] \<Rightarrow> Inl IndexError
           | p # _ \<Rightarrow> (case p of [] \<Rightarrow> Inl IndexError | y # _ \<Rightarrow> Inr y)))"

definition get_year :: "reference \<Rightarrow> error + int option" where
  "get_year reference =
     (case issued reference of
        Some d \<Rightarrow> (case first_date_part d of Inl e \<Rightarrow> Inl e | Inr y \<Rightarrow> Inr (Some y))
      | None \<Rightarrow>
          (case epub_date reference of
             Some d \<Rightarrow> (case first_date_part d of Inl e \<Rightarrow> Inl e | Inr y \<Rightarrow> Inr (Some y))
           | None \<Rightarrow> Inr None))"

text \<open>
  Lines 53 and 54. \<open>authors[0]\<close> raises on the empty sequence. Without a \<open>family\<close> key the
  expression is \<open>authors[0]\<close> itself, a dictionary and not a string.
\<close>

datatype key_value = Str string | Dict csl_name

definition first_author_key :: "csl_name list \<Rightarrow> error + key_value" where
  "first_author_key authors =
     (case authors of
        [] \<Rightarrow> Inl IndexError
      | a # _ \<Rightarrow> (case family a of Some f \<Rightarrow> Inr (Str (str_title f)) | None \<Rightarrow> Inr (Dict a)))"

text \<open>
  Line 55, \<^verbatim>\<open>ref_id += str(year)\<close>: the right-hand side is evaluated first and raises on
  the unbound \<open>year\<close>; then the addition raises on a dictionary.
\<close>

definition add_year :: "key_value \<Rightarrow> int option \<Rightarrow> error + string" where
  "add_year ref_id year =
     (case year of
        None \<Rightarrow> Inl UnboundLocalError
      | Some y \<Rightarrow> (case ref_id of Str s \<Rightarrow> Inr (s @ str y) | Dict _ \<Rightarrow> Inl TypeError))"

definition ref_id_of :: "csl_name list \<Rightarrow> int option \<Rightarrow> error + string" where
  "ref_id_of authors year =
     (case first_author_key authors of Inl e \<Rightarrow> Inl e | Inr key \<Rightarrow> add_year key year)"

text \<open>Lines 57 to 67: the template, as a function of the local variables it reads.\<close>

definition output_text :: "bool \<Rightarrow> string \<Rightarrow> string \<Rightarrow> string list \<Rightarrow> string \<Rightarrow> string \<Rightarrow> string
    \<Rightarrow> string \<Rightarrow> int \<Rightarrow> string \<Rightarrow> string" where
  "output_text use_short ref_id ttl authorList journal_long journal_short vol pg year doi =
     ''@article{'' @ ref_id @ '',\<newline>'' @
     ''    title = {'' @ ttl @ ''},\<newline>'' @
     ''    author = {'' @ join '' and '' authorList @ ''},\<newline>'' @
     ''    '' @ (if use_short then ''journal-long'' else ''journal'') @ '' = {'' @ journal_long @ ''},\<newline>'' @
     ''    '' @ (if use_short then ''journal'' else ''journal-short'') @ '' = {'' @ journal_short @ ''},\<newline>'' @
     ''    volume = {'' @ vol @ ''},\<newline>'' @
     ''    pages = {'' @ pg @ ''},\<newline>'' @
     ''    year = {'' @ str year @ ''},\<newline>'' @
     ''    doi = {'' @ doi @ ''}\<newline>'' @
     ''}\<newline>''"

text \<open>
  The whole function. Line 22 unpacks the pair and keeps its second component; the first
  is not read again.
\<close>

definition format_reference :: "string \<times> reference \<Rightarrow> bool \<Rightarrow> error + string" where
  "format_reference ref use_short =
     (let reference = snd ref;
          ttl = sanitize_title (title_or_empty reference);
          authors = authors_or_empty reference;
          authorList = author_loop authors [];
          journal_long = get_or_empty (container_title reference);
          journal_short = get_or_empty (container_title_short reference);
          vol = get_or_empty (volume reference);
          pg = get_or_empty (page reference);
          doi = get_default_empty (DOI reference)
      in (case get_year reference of
            Inl e \<Rightarrow> Inl e
          | Inr year \<Rightarrow>
              (case ref_id_of authors year of
                 Inl e \<Rightarrow> Inl e
               | Inr ref_id \<Rightarrow>
                   (case year of
                      None \<Rightarrow> Inl UnboundLocalError
                    | Some y \<Rightarrow>
                        Inr (output_text use_short ref_id ttl authorList journal_long
                               journal_short vol pg y doi)))))"

section \<open>\<^verbatim>\<open>get_reference\<close> and \<^verbatim>\<open>convert_references\<close>\<close>

text \<open>
  \<open>get_reference\<close> returns the identifier paired with the decoded answer of the service.
  The request itself is the parameter \<open>api\<close>; an identifier the service does not know is
  answered by a record whose \<open>status\<close> is \<open>error\<close>.
\<close>

definition get_reference :: "(string \<Rightarrow> reference) \<Rightarrow> string \<Rightarrow> string \<times> reference" where
  "get_reference api pmid = (pmid, api pmid)"

text \<open>
  In \<open>convert_references\<close> the variable \<open>ref\<close> holds the pair itself. A tuple has no method
  \<open>keys\<close> and takes no string index; only a dictionary does.
\<close>

datatype pyobj = Tuple "string \<times> reference" | Mapping reference

definition status_in_keys :: "pyobj \<Rightarrow> error + bool" where
  "status_in_keys ref =
     (case ref of Tuple _ \<Rightarrow> Inl AttributeError | Mapping r \<Rightarrow> Inr (status r \<noteq> None))"

definition status_is_error :: "pyobj \<Rightarrow> error + bool" where
  "status_is_error ref =
     (case ref of
        Tuple _ \<Rightarrow> Inl TypeError
      | Mapping r \<Rightarrow> (case status r of None \<Rightarrow> Inl KeyError | Some s \<Rightarrow> Inr (s = ''error'')))"

text \<open>
  Line 113 calls \<^verbatim>\<open>format_reference(ref)\<close> with one argument; the function has two
  required parameters, so the call raises before the body runs.
\<close>

definition format_reference_one_argument :: "pyobj \<Rightarrow> error + string" where
  "format_reference_one_argument ref = Inl TypeError"

record batch =
  successNumber :: nat
  failNumber :: nat
  oh :: string
  printed :: "string list"

fun convert_lines :: "(string \<Rightarrow> reference) \<Rightarrow> string list \<Rightarrow> batch \<Rightarrow> error + batch" where
  "convert_lines api [] st = Inr st"
| "convert_lines api (line # ih) st =
     (let ref = Tuple (get_reference api (rstrip line))
      in (case status_in_keys ref of
            Inl e \<Rightarrow> Inl e
          | Inr has_status \<Rightarrow>
              (case (if has_status then status_is_error ref else Inr False) of
                 Inl e \<Rightarrow> Inl e
               | Inr not_found \<Rightarrow>
                   (if not_found
                    then convert_lines api ih
                           (st\<lparr>printed := printed st @ [''PMID '' @ rstrip line @ '' NOT FOUND''],
                               failNumber := failNumber st + 1\<rparr>)
                    else (case format_reference_one_argument ref of
                            Inl e \<Rightarrow> Inl e
                          | Inr entry \<Rightarrow>
                              convert_lines api ih
                                (st\<lparr>successNumber := successNumber st + 1,
                                    oh := oh st @ entry @ ''\<newline>''\<rparr>))))))"

definition summary :: "nat \<Rightarrow> nat \<Rightarrow> string" where
  "summary succeeded failed =
     str (int succeeded) @ '' reference'' @ (if succeeded > 1 then ''s'' else []) @ '' '' @
     ''retrieved.\<newline>'' @ str (int failed) @ '' reference'' @
     (if failed > 1 then ''s'' else []) @ '' '' @ ''not found.''"

text \<open>
  The input file is the list of its lines; the output file is opened for writing, so it
  starts empty. The result is the state after the final \<open>print\<close>, or the exception.
\<close>

definition convert_references :: "(string \<Rightarrow> reference) \<Rightarrow> string list \<Rightarrow> error + batch" where
  "convert_references api input_file =
     (case convert_lines api input_file
             \<lparr>successNumber = 0, failNumber = 0, oh = [], printed = []\<rparr> of
        Inl e \<Rightarrow> Inl e
      | Inr st \<Rightarrow>
          Inr (st\<lparr>printed := printed st @ [summary (successNumber st) (failNumber st)]\<rparr>))"

section \<open>The specification's words\<close>





text \<open>\<open>contains pat s\<close>: the text \<open>pat\<close> occurs somewhere in \<open>s\<close>.\<close>

fun contains :: "string \<Rightarrow> string \<Rightarrow> bool" where
  "contains pat [] = (pat = [])"
| "contains pat (c # cs) = (prefix pat (c # cs) \<or> contains pat cs)"

text \<open>
  The substitution as the specification describes it: the capture is the shortest one,
  and only the first match in the text is replaced.
\<close>

definition match_tag_shortest :: "string \<Rightarrow> string \<Rightarrow> string \<Rightarrow> (string \<times> string) option" where
  "match_tag_shortest op cl s =
     (if prefix op s then
        let rest = drop (length op) s;
            m = length (takeWhile (\<lambda>c. c \<noteq> CHR ''\<newline>'') rest)
        in case find (\<lambda>k. prefix cl (drop k rest)) [1..<Suc m] of
             None \<Rightarrow> None
           | Some k \<Rightarrow> Some (take k rest, drop (k + length cl) rest)
      else None)"

fun sub_first_shortest :: "string \<Rightarrow> string \<Rightarrow> string \<Rightarrow> string \<Rightarrow> string \<Rightarrow> string" where
  "sub_first_shortest op cl l r [] = []"
| "sub_first_shortest op cl l r (c # cs) =
     (case match_tag_shortest op cl (c # cs) of
        Some (x, rest) \<Rightarrow> l @ x @ r @ rest
      | None \<Rightarrow> c # sub_first_shortest op cl l r cs)"

section \<open>Records used as examples\<close>

definition no_keys :: reference where
  "no_keys = \<lparr>status = None, title = None, author = None, container_title = None,
     container_title_short = None, volume = None, page = None, DOI = None, issued = None,
     epub_date = None\<rparr>"

definition lee :: csl_name where
  "lee = \<lparr>family = Some ''Lee'', given = Some ''A''\<rparr>"

definition in_2019 :: csl_date where
  "in_2019 = \<lparr>date_parts = Some [[2019]]\<rparr>"

definition plato :: csl_name where
  "plato = \<lparr>family = None, given = Some ''Plato''\<rparr>"

definition curie :: csl_name where
  "curie = \<lparr>family = Some ''Curie'', given = None\<rparr>"

definition nameless :: csl_name where
  "nameless = \<lparr>family = None, given = None\<rparr>"

definition dna_paper :: reference where
  "dna_paper = no_keys\<lparr>title := Some ''DNA repair in E. coli'',
     author := Some [lee, plato, nameless, curie],
     container_title := Some ''Nature Genetics'', container_title_short := Some ''Nat Genet'',
     volume := Some ''12'', page := Some ''1-9'', DOI := Some ''10.1000/xyz'',
     epub_date := Some in_2019\<rparr>"

definition nasa_study :: reference where
  "nasa_study = no_keys\<lparr>title := Some ''NASA study'', author := Some [lee], issued := Some in_2019\<rparr>"

section \<open>When the formatter returns\<close>

lemma get_year_present:
  assumes "issued r = Some d \<or> issued r = None \<and> epub_date r = Some d"
    and "date_parts d = Some ((y # ms) # ps)"
  shows "get_year r = Inr (Some y)"
  using assms by (auto simp: get_year_def first_date_part_def)

lemma get_year_absent: "issued r = None \<Longrightarrow> epub_date r = None \<Longrightarrow> get_year r = Inr None"
  by (simp add: get_year_def)

lemma format_reference_returns:
  assumes "get_year r = Inr (Some y)" and "author r = Some (a # rest)" and "family a = Some f"
  shows "format_reference (pmid, r) b =
           Inr (output_text b (str_title f @ str y)
                  (sanitize_title (title_or_empty r))
                  (author_loop (a # rest) [])
                  (get_or_empty (container_title r)) (get_or_empty (container_title_short r))
                  (get_or_empty (volume r)) (get_or_empty (page r)) y
                  (get_default_empty (DOI r)))"
  using assms
  by (simp add: format_reference_def Let_def ref_id_of_def first_author_key_def add_year_def
        authors_or_empty_def)

lemma format_reference_with_year:
  assumes "get_year r = Inr (Some y)"
  shows "format_reference (pmid, r) b =
           (case ref_id_of (authors_or_empty r) (Some y) of
              Inl e \<Rightarrow> Inl e
            | Inr ref_id \<Rightarrow>
                Inr (output_text b ref_id (sanitize_title (title_or_empty r))
                       (author_loop (authors_or_empty r) [])
                       (get_or_empty (container_title r)) (get_or_empty (container_title_short r))
                       (get_or_empty (volume r)) (get_or_empty (page r)) y
                       (get_default_empty (DOI r))))"
  using assms by (simp add: format_reference_def Let_def split: sum.splits)

lemma format_reference_Inr_year:
  assumes "format_reference (pmid, r) b = Inr out"
  shows "\<exists>y. get_year r = Inr (Some y)"
  using assms
  by (auto simp: format_reference_def Let_def split: sum.splits option.splits)

text \<open>
  C1, as stated, fails. Two records without \<open>issued\<close> and \<open>epub-date\<close> end in two
  different built-in exceptions, neither of them a class of the program's own; and a
  record that has \<open>issued\<close>, but no \<open>date-parts\<close> in it, does not return.
\<close>

theorem missing_year_error_counterexample:
  "format_reference (''31452104'', no_keys\<lparr>author := Some [lee]\<rparr>) False = Inl UnboundLocalError
   \<and> format_reference (''31452104'', no_keys) False = Inl IndexError
   \<and> format_reference (''31452104'',
         no_keys\<lparr>author := Some [lee], issued := Some \<lparr>date_parts = None\<rparr>\<rparr>) False = Inl KeyError"
  by (simp add: format_reference_def Let_def get_year_def first_date_part_def ref_id_of_def
        first_author_key_def add_year_def authors_or_empty_def no_keys_def lee_def)

text \<open>
  C1, amended. A record with neither \<open>issued\<close> nor \<open>epub-date\<close> never makes
  \<open>format_reference\<close> return: it raises, and with a non-empty author list the exception is
  the \<open>UnboundLocalError\<close> of the unassigned \<open>year\<close>. A record whose \<open>issued\<close> (or, when
  \<open>issued\<close> is absent, whose \<open>epub-date\<close>) has a \<open>date-parts\<close> list with a non-empty first
  element, and whose first author has a family name, makes it return the entry, whichever
  of the other keys are missing: a missing text is the empty string.
\<close>

theorem year_keys_and_failure:
  "(issued r = None \<and> epub_date r = None \<longrightarrow>
      (\<exists>e. format_reference (pmid, r) b = Inl e) \<and>
      (author r = Some (a # rest) \<longrightarrow> format_reference (pmid, r) b = Inl UnboundLocalError))
   \<and> ((issued r = Some d \<or> issued r = None \<and> epub_date r = Some d) \<and>
        date_parts d = Some ((y # ms) # ps) \<and> author r = Some (a # rest) \<and> family a = Some f \<longrightarrow>
      format_reference (pmid, r) b =
        Inr (output_text b (str_title f @ str y) (sanitize_title (title_or_empty r))
               (author_loop (a # rest) [])
               (get_or_empty (container_title r)) (get_or_empty (container_title_short r))
               (get_or_empty (volume r)) (get_or_empty (page r)) y
               (get_default_empty (DOI r))))"
proof (intro conjI impI)
  assume none: "issued r = None \<and> epub_date r = None"
  then have y: "get_year r = Inr None" by (simp add: get_year_absent)
  show "\<exists>e. format_reference (pmid, r) b = Inl e"
    using y
    by (auto simp: format_reference_def Let_def ref_id_of_def first_author_key_def add_year_def
          authors_or_empty_def split: option.splits list.splits sum.splits)
  assume "author r = Some (a # rest)"
  with y show "format_reference (pmid, r) b = Inl UnboundLocalError"
    by (auto simp: format_reference_def Let_def ref_id_of_def first_author_key_def add_year_def
          authors_or_empty_def split: option.splits)
next
  assume h: "(issued r = Some d \<or> issued r = None \<and> epub_date r = Some d) \<and>
        date_parts d = Some ((y # ms) # ps) \<and> author r = Some (a # rest) \<and> family a = Some f"
  then have "get_year r = Inr (Some y)" using get_year_present by blast
  with h show "format_reference (pmid, r) b =
        Inr (output_text b (str_title f @ str y) (sanitize_title (title_or_empty r))
               (author_loop (a # rest) [])
               (get_or_empty (container_title r)) (get_or_empty (container_title_short r))
               (get_or_empty (volume r)) (get_or_empty (page r)) y
               (get_default_empty (DOI r)))"
    using format_reference_returns by blast
qed

theorem year_keys_and_failure_witness:
  "format_reference (''31452104'', no_keys\<lparr>author := Some [lee]\<rparr>) False = Inl UnboundLocalError
   \<and> format_reference (''31452104'', no_keys\<lparr>author := Some [lee], epub_date := Some in_2019\<rparr>) True =
       Inr (output_text True ''Lee2019'' [] [''Lee, A''] [] [] [] [] 2019 [])"
proof -
  have key: "str_title ''Lee'' @ str 2019 = ''Lee2019''" by code_simp
  have fields: "sanitize_title [] = []" "author_loop [lee] [] = [''Lee, A'']" by code_simp+
  show ?thesis
    using year_keys_and_failure[where r = "no_keys\<lparr>author := Some [lee]\<rparr>" and a = lee and rest = "[]"
          and pmid = "''31452104''" and b = False]
        year_keys_and_failure[where r = "no_keys\<lparr>author := Some [lee], epub_date := Some in_2019\<rparr>"
          and d = in_2019 and y = 2019 and ms = "[]"
          and ps = "[]" and a = lee and rest = "[]" and f = "''Lee''"
          and pmid = "''31452104''" and b = True]
    by (simp add: no_keys_def in_2019_def key fields fields[unfolded lee_def] lee_def
          title_or_empty_def get_or_empty_def get_default_empty_def)
qed

lemma format_reference_no_authors:
  assumes "authors_or_empty r = []" and "get_year r = Inr year"
  shows "format_reference (pmid, r) b = Inl IndexError"
  using assms by (simp add: format_reference_def Let_def ref_id_of_def first_author_key_def)

lemma format_reference_no_family:
  assumes "author r = Some (a # rest)" and "family a = None" and "get_year r = Inr (Some y)"
  shows "format_reference (pmid, r) b = Inl TypeError"
  using assms
  by (simp add: format_reference_def Let_def ref_id_of_def first_author_key_def add_year_def
        authors_or_empty_def)

text \<open>
  C2 does not hold of the code: with a year but without authors, line 53 indexes the
  empty sequence. The \<open>author\<close> key may be absent or hold the empty list.
\<close>

theorem empty_authors_raise:
  "format_reference (''31452104'', no_keys\<lparr>title := Some ''NASA study'', issued := Some in_2019\<rparr>) False
     = Inl IndexError
   \<and> format_reference (''31452104'',
         no_keys\<lparr>title := Some ''NASA study'', author := Some [], issued := Some in_2019\<rparr>) False
     = Inl IndexError"
  by (simp add: format_reference_def Let_def get_year_def first_date_part_def ref_id_of_def
        first_author_key_def add_year_def authors_or_empty_def no_keys_def in_2019_def)

section \<open>The example of the specification\<close>

lemma nasa_study_text:
  "format_reference (''31452104'', nasa_study) False =
     Inr (''@article{Lee2019,\<newline>'' @
          ''    title = {{NASA} study},\<newline>'' @
          ''    author = {Lee, A},\<newline>'' @
          ''    journal = {},\<newline>'' @
          ''    journal-short = {},\<newline>'' @
          ''    volume = {},\<newline>'' @
          ''    pages = {},\<newline>'' @
          ''    year = {2019},\<newline>'' @
          ''    doi = {}\<newline>'' @
          ''}\<newline>'')"
  by code_simp

text \<open>
  C4, as stated, fails: the entry of the example record is not the template filled with
  the key \<open>Lee2019\<close> and the title \<open>{{NASA}} study\<close>, and the text \<open>{{NASA}} study\<close>
  occurs nowhere in it.
\<close>

theorem nasa_study_title_counterexample:
  "format_reference (''31452104'', nasa_study) False \<noteq>
     Inr (output_text False ''Lee2019'' ''{{NASA}} study'' [''Lee, A''] [] [] [] [] 2019 [])
   \<and> (case format_reference (''31452104'', nasa_study) False of
        Inl e \<Rightarrow> False
      | Inr entry \<Rightarrow> contains ''{NASA} study'' entry \<and> \<not> contains ''{{NASA}} study'' entry)"
  by code_simp

text \<open>
  C4, amended. For the example record and the long-journal preference the entry key is
  \<open>Lee2019\<close> and the title field is \<open>{NASA} study\<close>: the run of capitals is wrapped once,
  and the template adds the braces of the field around it.
\<close>

theorem nasa_study_entry:
  "format_reference (''31452104'', nasa_study) False =
     Inr (output_text False ''Lee2019'' ''{NASA} study'' [''Lee, A''] [] [] [] [] 2019 [])"
  by code_simp

section \<open>The entry key\<close>

text \<open>
  C5 does not hold of the code. With a family name the key is that name in title case
  followed by the year, as the first record shows. When the first author has a given
  name and no family name, line 54 takes the author object itself as the key, and adding
  the year to it on line 55 raises.
\<close>

theorem given_only_first_author_raises:
  "format_reference (''31452104'',
      no_keys\<lparr>author := Some [\<lparr>family = Some ''smith'', given = None\<rparr>],
              issued := Some \<lparr>date_parts = Some [[2020, 5, 17]]\<rparr>\<rparr>) False
     = Inr (output_text False ''Smith2020'' [] [''smith''] [] [] [] [] 2020 [])
   \<and> format_reference (''31452104'', no_keys\<lparr>author := Some [plato], issued := Some in_2019\<rparr>) False
     = Inl TypeError"
  by code_simp

section \<open>The title\<close>

lemma contains_drop: "prefix pat (drop j s) \<Longrightarrow> contains pat s"
proof (induction s arbitrary: j)
  case Nil
  then show ?case by simp
next
  case (Cons c cs)
  show ?case
  proof (cases j)
    case 0
    with Cons.prems show ?thesis by simp
  next
    case (Suc i)
    with Cons.prems have "prefix pat (drop i cs)" by simp
    then show ?thesis using Cons.IH by simp
  qed
qed

text \<open>A pattern whose first character does not recur in it cannot overlap itself.\<close>

lemma prefix_overlap:
  assumes "prefix pat (xs @ pat @ ys)" and "\<not> prefix pat xs" and "xs \<noteq> []"
    and "pat \<noteq> []" and "hd pat \<notin> set (tl pat)"
  shows False
proof -
  from assms(1) have "prefix pat xs \<or> (\<exists>us. pat = xs @ us \<and> prefix us (pat @ ys))"
    by (simp only: prefix_append)
  with assms(2) obtain us where us: "pat = xs @ us" and pre: "prefix us (pat @ ys)"
    by blast
  obtain p ps where pat: "pat = p # ps" using assms(4) by (cases pat) auto
  obtain x xs' where xs: "xs = x # xs'" using assms(3) by (cases xs) auto
  have "us \<noteq> []" using us assms(2) by (cases us) auto
  then obtain u us' where u: "us = u # us'" by (cases us) auto
  from pre have "u = p" unfolding u pat by simp
  moreover from us have "ps = xs' @ u # us'" unfolding u pat xs by simp
  ultimately have "p \<in> set ps" by simp
  with assms(5) show False unfolding pat by simp
qed

lemma re_sub_tag_skip:
  assumes "\<not> contains op pre" and "op \<noteq> []" and "hd op \<notin> set (tl op)"
  shows "re_sub_tag op cl l r (pre @ op @ s) = pre @ re_sub_tag op cl l r (op @ s)"
  using assms(1)
proof (induction pre)
  case Nil
  show ?case by simp
next
  case (Cons p ps)
  then have np: "\<not> prefix op (p # ps)" and nc: "\<not> contains op ps" by auto
  have "\<not> prefix op ((p # ps) @ op @ s)"
    using prefix_overlap[of op "p # ps" s] np assms(2,3) by blast
  then have "match_tag op cl (p # ps @ op @ s) = None" by (simp add: match_tag_def)
  then show ?case using Cons.IH[OF nc] by simp
qed

lemma find_last_index:
  assumes "1 \<le> k" and "k \<le> m" and "P k" and "\<forall>j. k < j \<and> j \<le> m \<longrightarrow> \<not> P j"
  shows "find P (rev [1..<Suc m]) = Some k"
  using assms
proof (induction m)
  case 0
  then show ?case by simp
next
  case (Suc m)
  show ?case
  proof (cases "k = Suc m")
    case True
    with Suc.prems show ?thesis by simp
  next
    case False
    with Suc.prems have "k \<le> m" and "\<not> P (Suc m)" by auto
    with Suc show ?thesis by simp
  qed
qed

lemma no_close_in_line:
  assumes "prefix cl (drop j post)" and "j \<le> length (takeWhile (\<lambda>c. c \<noteq> CHR ''\<newline>'') post)"
    and "cl \<noteq> []" and "CHR ''\<newline>'' \<notin> set cl"
  shows "contains cl (takeWhile (\<lambda>c. c \<noteq> CHR ''\<newline>'') post)"
proof -
  let ?line = "takeWhile (\<lambda>c. c \<noteq> CHR ''\<newline>'') post"
  let ?rest = "dropWhile (\<lambda>c. c \<noteq> CHR ''\<newline>'') post"
  have "drop j (?line @ ?rest) = drop j ?line @ ?rest"
    using assms(2) by (simp del: takeWhile_dropWhile_id)
  then have "drop j post = drop j ?line @ ?rest" by simp
  then have "prefix cl (drop j ?line @ ?rest)" using assms(1) by simp
  then have "prefix cl (drop j ?line) \<or> (\<exists>us. cl = drop j ?line @ us \<and> prefix us ?rest)"
    by (simp add: prefix_append)
  then show ?thesis
  proof
    assume "prefix cl (drop j ?line)"
    then show ?thesis by (rule contains_drop)
  next
    assume "\<exists>us. cl = drop j ?line @ us \<and> prefix us ?rest"
    then obtain us where cl: "cl = drop j ?line @ us" and us: "prefix us ?rest" by blast
    show ?thesis
    proof (cases us)
      case Nil
      with cl have "prefix cl (drop j ?line)" by simp
      then show ?thesis by (rule contains_drop)
    next
      case (Cons u us')
      with us obtain rest' where rest: "?rest = u # rest'" by (cases ?rest) auto
      have "\<not> (hd ?rest \<noteq> CHR ''\<newline>'')"
        by (rule hd_dropWhile) (simp add: rest)
      with rest have "u = CHR ''\<newline>''" by simp
      with cl Cons have "CHR ''\<newline>'' \<in> set cl" by simp
      with assms(4) show ?thesis by simp
    qed
  qed
qed

lemma match_tag_first_to_last:
  assumes "X \<noteq> []" and "CHR ''\<newline>'' \<notin> set X"
    and "cl \<noteq> []" and "CHR ''\<newline>'' \<notin> set cl" and "hd cl \<notin> set (tl cl)"
    and "\<not> contains cl (takeWhile (\<lambda>c. c \<noteq> CHR ''\<newline>'') post)"
  shows "match_tag op cl (op @ X @ cl @ post) = Some (X, post)"
proof -
  let ?rest = "X @ cl @ post"
  let ?n = "length (takeWhile (\<lambda>c. c \<noteq> CHR ''\<newline>'') post)"
  let ?m = "length (takeWhile (\<lambda>c. c \<noteq> CHR ''\<newline>'') ?rest)"
  let ?P = "\<lambda>k. prefix cl (drop k ?rest)"
  have "takeWhile (\<lambda>c. c \<noteq> CHR ''\<newline>'') ?rest
          = X @ takeWhile (\<lambda>c. c \<noteq> CHR ''\<newline>'') (cl @ post)"
    by (rule takeWhile_append2) (use assms(2) in auto)
  moreover have "takeWhile (\<lambda>c. c \<noteq> CHR ''\<newline>'') (cl @ post)
          = cl @ takeWhile (\<lambda>c. c \<noteq> CHR ''\<newline>'') post"
    by (rule takeWhile_append2) (use assms(4) in auto)
  ultimately have m: "?m = length X + length cl + ?n" by simp
  have "find ?P (rev [1..<Suc ?m]) = Some (length X)"
  proof (rule find_last_index)
    show "1 \<le> length X" using assms(1) by (cases X) auto
    show "length X \<le> ?m" using m by simp
    show "?P (length X)" by simp
    show "\<forall>j. length X < j \<and> j \<le> ?m \<longrightarrow> \<not> ?P j"
    proof (intro allI impI notI)
      fix j
      assume j: "length X < j \<and> j \<le> ?m" and p: "?P j"
      define i where "i = j - length X"
      with j m have i: "1 \<le> i" "i \<le> length cl + ?n" and jeq: "j = length X + i" by auto
      from p jeq have pi: "prefix cl (drop i (cl @ post))" by simp
      show False
      proof (cases "i < length cl")
        case True
        then have "drop i (cl @ post) = drop i cl @ post" and ne: "drop i cl \<noteq> []" by auto
        moreover obtain d ds where d: "drop i cl = d # ds" using ne by (cases "drop i cl") auto
        moreover obtain e es where e: "cl = e # es" using assms(3) by (cases cl) auto
        ultimately have "d = e" using pi by simp
        obtain i' where i': "i = Suc i'" using i(1) by (cases i) auto
        from d e i' have "drop i' es = d # ds" by simp
        then have "d \<in> set es" by (metis in_set_dropD list.set_intros(1))
        with \<open>d = e\<close> e assms(5) show False by simp
      next
        case False
        then have "drop i (cl @ post) = drop (i - length cl) post" by simp
        with pi have "prefix cl (drop (i - length cl) post)" by simp
        moreover have "i - length cl \<le> ?n" using i(2) by auto
        ultimately have "contains cl (takeWhile (\<lambda>c. c \<noteq> CHR ''\<newline>'') post)"
          using no_close_in_line assms(3,4) by blast
        with assms(6) show False by simp
      qed
    qed
  qed
  then show ?thesis by (simp add: match_tag_def Let_def)
qed

lemma re_sub_tag_first_to_last:
  assumes "\<not> contains op pre" and "op \<noteq> []" and "hd op \<notin> set (tl op)"
    and "X \<noteq> []" and "CHR ''\<newline>'' \<notin> set X"
    and "cl \<noteq> []" and "CHR ''\<newline>'' \<notin> set cl" and "hd cl \<notin> set (tl cl)"
    and "\<not> contains cl (takeWhile (\<lambda>c. c \<noteq> CHR ''\<newline>'') post)"
  shows "re_sub_tag op cl l r (pre @ op @ X @ cl @ post) = pre @ l @ X @ r @ re_sub_tag op cl l r post"
proof -
  obtain c cs where s: "op @ X @ cl @ post = c # cs" using assms(2) by (cases op) auto
  have "match_tag op cl (c # cs) = Some (X, post)"
    using match_tag_first_to_last[OF assms(4-9), of op] s by simp
  then have "re_sub_tag op cl l r (op @ X @ cl @ post) = l @ X @ r @ re_sub_tag op cl l r post"
    using s by simp
  with re_sub_tag_skip[OF assms(1-3), of cl l r "X @ cl @ post"] show ?thesis by simp
qed

text \<open>
  C3, as stated, fails. With two tag pairs on one line the capture runs from the first
  opening tag to the last closing tag, where the shortest capture, replaced once, would
  leave the second pair alone; with the pairs on two lines both are replaced, where a
  substitution of the first match only would replace one.
\<close>

theorem shortest_first_match_counterexample:
  "sub_to_latex ''H<sub>2</sub>O and CO<sub>2</sub>'' = ''H$_{2</sub>O and CO<sub>2}$''
   \<and> sub_first_shortest ''<sub>'' ''</sub>'' ''$_{'' ''}$'' ''H<sub>2</sub>O and CO<sub>2</sub>''
       = ''H$_{2}$O and CO<sub>2</sub>''
   \<and> sub_to_latex ''H<sub>2</sub>O and CO<sub>2</sub>''
       \<noteq> sub_first_shortest ''<sub>'' ''</sub>'' ''$_{'' ''}$'' ''H<sub>2</sub>O and CO<sub>2</sub>''
   \<and> sub_to_latex ''H<sub>2</sub>O\<newline>CO<sub>2</sub>'' = ''H$_{2}$O\<newline>CO$_{2}$''
   \<and> sub_first_shortest ''<sub>'' ''</sub>'' ''$_{'' ''}$'' ''H<sub>2</sub>O\<newline>CO<sub>2</sub>''
       = ''H$_{2}$O\<newline>CO<sub>2</sub>''
   \<and> sub_to_latex ''H<sub>2</sub>O\<newline>CO<sub>2</sub>''
       \<noteq> sub_first_shortest ''<sub>'' ''</sub>'' ''$_{'' ''}$'' ''H<sub>2</sub>O\<newline>CO<sub>2</sub>''"
  by code_simp

text \<open>
  C3, amended. The substitution replaces every match, and its capture is the longest on
  the line. When no \<open><sub>\<close> occurs in front of the tag pair, the tagged text \<open>X\<close> is
  not empty and has no line break, and no \<open></sub>\<close> follows before the next line break,
  then \<open><sub>X</sub>\<close> becomes \<open>$_{X}$\<close> with \<open>X\<close> unchanged, the text in front is kept, and
  the text behind is substituted in the same way. The same holds of \<open><sup>X</sup>\<close> and
  \<open>$^{X}$\<close>.
\<close>

theorem tag_pair_replaced_and_scan_continues:
  assumes "X \<noteq> []" and "CHR ''\<newline>'' \<notin> set X"
  shows "(\<not> contains ''<sub>'' pre \<and>
          \<not> contains ''</sub>'' (takeWhile (\<lambda>c. c \<noteq> CHR ''\<newline>'') post) \<longrightarrow>
            sub_to_latex (pre @ ''<sub>'' @ X @ ''</sub>'' @ post)
              = pre @ ''$_{'' @ X @ ''}$'' @ sub_to_latex post)
       \<and> (\<not> contains ''<sup>'' pre \<and>
          \<not> contains ''</sup>'' (takeWhile (\<lambda>c. c \<noteq> CHR ''\<newline>'') post) \<longrightarrow>
            sup_to_latex (pre @ ''<sup>'' @ X @ ''</sup>'' @ post)
              = pre @ ''$^{'' @ X @ ''}$'' @ sup_to_latex post)"
proof (intro conjI impI)
  assume "\<not> contains ''<sub>'' pre \<and>
          \<not> contains ''</sub>'' (takeWhile (\<lambda>c. c \<noteq> CHR ''\<newline>'') post)"
  then show "sub_to_latex (pre @ ''<sub>'' @ X @ ''</sub>'' @ post)
              = pre @ ''$_{'' @ X @ ''}$'' @ sub_to_latex post"
    unfolding sub_to_latex_def
    using assms by (intro re_sub_tag_first_to_last) simp_all
next
  assume "\<not> contains ''<sup>'' pre \<and>
          \<not> contains ''</sup>'' (takeWhile (\<lambda>c. c \<noteq> CHR ''\<newline>'') post)"
  then show "sup_to_latex (pre @ ''<sup>'' @ X @ ''</sup>'' @ post)
              = pre @ ''$^{'' @ X @ ''}$'' @ sup_to_latex post"
    unfolding sup_to_latex_def
    using assms by (intro re_sub_tag_first_to_last) simp_all
qed

theorem tag_pair_replaced_and_scan_continues_witness:
  "sub_to_latex (''H'' @ ''<sub>'' @ ''2'' @ ''</sub>'' @ ''O and\<newline>CO<sub>2</sub>'')
     = ''H'' @ ''$_{'' @ ''2'' @ ''}$'' @ ''O and\<newline>CO$_{2}$''
   \<and> sup_to_latex (''H'' @ ''<sup>'' @ ''2'' @ ''</sup>'' @ ''O and\<newline>CO<sub>2</sub>'')
     = ''H'' @ ''$^{'' @ ''2'' @ ''}$'' @ ''O and\<newline>CO<sub>2</sub>''
   \<and> sub_to_latex (''H'' @ ''<sub>'' @ ''2</sub>O and CO<sub>2'' @ ''</sub>'' @ [])
     = ''H'' @ ''$_{'' @ ''2</sub>O and CO<sub>2'' @ ''}$''"
proof -
  have longest: "sub_to_latex (''H'' @ ''<sub>'' @ ''2</sub>O and CO<sub>2'' @ ''</sub>'' @ [])
     = ''H'' @ ''$_{'' @ ''2</sub>O and CO<sub>2'' @ ''}$''"
  proof -
    have x: "''2</sub>O and CO<sub>2'' \<noteq> []" "CHR ''\<newline>'' \<notin> set ''2</sub>O and CO<sub>2''"
      by simp_all
    have sub: "\<not> contains ''<sub>'' ''H'' \<and>
        \<not> contains ''</sub>'' (takeWhile (\<lambda>c. c \<noteq> CHR ''\<newline>'') [])"
      by code_simp
    have behind: "sub_to_latex [] = []" by code_simp
    show ?thesis
      using tag_pair_replaced_and_scan_continues[OF x, of "''H''" "[]"] sub
      by (simp only: behind simp_thms append_Nil2)
  qed
  have x: "''2'' \<noteq> []" "CHR ''\<newline>'' \<notin> set ''2''" by simp_all
  have sub: "\<not> contains ''<sub>'' ''H'' \<and>
      \<not> contains ''</sub>'' (takeWhile (\<lambda>c. c \<noteq> CHR ''\<newline>'') ''O and\<newline>CO<sub>2</sub>'')"
    by code_simp
  have sup: "\<not> contains ''<sup>'' ''H'' \<and>
      \<not> contains ''</sup>'' (takeWhile (\<lambda>c. c \<noteq> CHR ''\<newline>'') ''O and\<newline>CO<sub>2</sub>'')"
    by code_simp
  have behind: "sub_to_latex ''O and\<newline>CO<sub>2</sub>'' = ''O and\<newline>CO$_{2}$''"
    "sup_to_latex ''O and\<newline>CO<sub>2</sub>'' = ''O and\<newline>CO<sub>2</sub>''"
    by code_simp+
  show ?thesis
    using tag_pair_replaced_and_scan_continues[OF x, of "''H''" "''O and\<newline>CO<sub>2</sub>''"]
      sub sup longest
    by (simp only: behind simp_thms)
qed








section \<open>The authors\<close>




section \<open>The journal lines\<close>

text \<open>
  C9. Whenever \<open>format_reference\<close> returns for a record, it returns for both preferences,
  and the two entries have the same text in front of and behind the two journal lines.
  Without the preference the lines are \<open>journal\<close> with the long name and \<open>journal-short\<close>
  with the short name; with it they are \<open>journal-long\<close> with the long name and \<open>journal\<close>
  with the short name.
\<close>

theorem use_short_changes_labels_only:
  assumes "format_reference (pmid, r) b = Inr out"
  shows "\<exists>head tail.
           format_reference (pmid, r) False =
             Inr (head @ ''journal = {'' @ get_or_empty (container_title r) @ ''},\<newline>'' @
                  ''    journal-short = {'' @ get_or_empty (container_title_short r) @ ''},\<newline>'' @
                  tail) \<and>
           format_reference (pmid, r) True =
             Inr (head @ ''journal-long = {'' @ get_or_empty (container_title r) @ ''},\<newline>'' @
                  ''    journal = {'' @ get_or_empty (container_title_short r) @ ''},\<newline>'' @
                  tail)"
proof -
  from assms obtain y where y: "get_year r = Inr (Some y)"
    using format_reference_Inr_year by blast
  from assms obtain k where k: "ref_id_of (authors_or_empty r) (Some y) = Inr k"
    using format_reference_with_year[OF y, of pmid b] by (auto split: sum.splits)
  let ?head = "''@article{'' @ k @ '',\<newline>'' @
     ''    title = {'' @ sanitize_title (title_or_empty r) @ ''},\<newline>'' @
     ''    author = {'' @ join '' and '' (author_loop (authors_or_empty r) []) @ ''},\<newline>'' @
     ''    ''"
  let ?tail = "''    volume = {'' @ get_or_empty (volume r) @ ''},\<newline>'' @
     ''    pages = {'' @ get_or_empty (page r) @ ''},\<newline>'' @
     ''    year = {'' @ str y @ ''},\<newline>'' @
     ''    doi = {'' @ get_default_empty (DOI r) @ ''}\<newline>'' @
     ''}\<newline>''"
  have "format_reference (pmid, r) False =
             Inr (?head @ ''journal = {'' @ get_or_empty (container_title r) @ ''},\<newline>'' @
                  ''    journal-short = {'' @ get_or_empty (container_title_short r) @ ''},\<newline>'' @
                  ?tail)"
    using format_reference_with_year[OF y, of pmid False] k by (simp add: output_text_def)
  moreover have "format_reference (pmid, r) True =
             Inr (?head @ ''journal-long = {'' @ get_or_empty (container_title r) @ ''},\<newline>'' @
                  ''    journal = {'' @ get_or_empty (container_title_short r) @ ''},\<newline>'' @
                  ?tail)"
    using format_reference_with_year[OF y, of pmid True] k by (simp add: output_text_def)
  ultimately show ?thesis by blast
qed

theorem use_short_changes_labels_only_witness:
  "\<exists>head tail.
     format_reference (''31452104'', dna_paper) False =
       Inr (head @ ''journal = {'' @ ''Nature Genetics'' @ ''},\<newline>'' @
            ''    journal-short = {'' @ ''Nat Genet'' @ ''},\<newline>'' @ tail) \<and>
     format_reference (''31452104'', dna_paper) True =
       Inr (head @ ''journal-long = {'' @ ''Nature Genetics'' @ ''},\<newline>'' @
            ''    journal = {'' @ ''Nat Genet'' @ ''},\<newline>'' @ tail)"
proof -
  have ret: "format_reference (''31452104'', dna_paper) False =
     Inr (output_text False ''Lee2019'' ''{DNA} repair in {E}. coli''
            [''Lee, A'', ''Plato'', ''Curie''] ''Nature Genetics'' ''Nat Genet'' ''12'' ''1-9'' 2019
            ''10.1000/xyz'')"
    by code_simp
  have fields: "get_or_empty (container_title dna_paper) = ''Nature Genetics''"
    "get_or_empty (container_title_short dna_paper) = ''Nat Genet''"
    by code_simp+
  show ?thesis
    using use_short_changes_labels_only[OF ret] by (simp only: fields)
qed

section \<open>The batch\<close>

text \<open>
  C6 does not hold of the code: whatever the service answers, a batch of three
  identifiers ends on its first line, where \<open>keys\<close> is asked of the pair that
  \<open>get_reference\<close> returned. Nothing is counted and nothing is written.
\<close>

theorem batch_raises_on_first_line:
  "convert_references api [line1, line2, line3] = Inl AttributeError"
  by (simp add: convert_references_def Let_def status_in_keys_def)

section \<open>The identifier\<close>

text \<open>
  C10. The result of \<open>format_reference\<close>, entry or exception, is the same for any two
  identifiers paired with the same record and the same preference.
\<close>

theorem format_reference_ignores_identifier:
  "format_reference (pmid1, r) b = format_reference (pmid2, r) b"
  by (simp add: format_reference_def)

end
